theory Spec2Isabelle
  imports Complex_Main "HOL-Library.Sublist"
begin

section \<open>The two tables\<close>

text \<open>
  \<open>plot_collaboration_network\<close> reads two pandas frames, \<open>project_df\<close> and
  \<open>organization_df\<close>. A frame is modelled as the list of its rows, in row order, and a
  row as a record of the columns the function reads.

  The \<open>projectID\<close> of a row is an integer and the \<open>name\<close> of an
  organization row a text; both are present in every row.
  A text cell is a \<open>string option\<close>: \<open>None\<close> is a missing value (NaN, as
  \<open>read_csv\<close> leaves it), which is not an instance of \<open>str\<close>.
  A cell of the \<open>contribution\<close> column is classified by what \<open>float()\<close> makes
  of it: \<open>Num x\<close> is a number or a numeric-like string of value \<open>x\<close>, \<open>NaN\<close>
  a missing value, \<open>NonNumeric\<close> a string such as \<open>abc\<close> that \<open>float()\<close>
  rejects.
\<close>

datatype error = ValueError | KeyError string

datatype num_cell = Num rat | NaN | NonNumeric

record keyed_row =
  projectID :: int

record project_row = keyed_row +
  sci_voc_titles :: "string option"
  fundingScheme :: "string option"

record organization_row = keyed_row +
  name :: string
  activityType :: "string option"
  country :: "string option"
  discipline :: "string option"
  startDate :: "string option"
  contribution_col :: num_cell

type_synonym tables = "project_row list \<times> organization_row list"

text \<open>The keyword arguments of \<open>plot_collaboration_network\<close>; \<open>None\<close> is Python's
  \<open>None\<close>.\<close>

record config =
  field_filter :: "string option"
  org_types :: "string list option"
  max_projects :: int
  min_participants :: int
  countries :: "string list option"
  disciplines :: "string list option"
  year :: "string option"
  contribution :: "rat option"
  project_type :: "string list option"

section \<open>pandas operations\<close>

text \<open>\<open>Series.astype(str)\<close> on a text column: a missing value becomes the text
  \<open>nan\<close>.\<close>

definition astype_str :: "string option \<Rightarrow> string" where
  "astype_str c = (case c of None \<Rightarrow> ''nan'' | Some s \<Rightarrow> s)"

text \<open>\<open>Series.astype(float)\<close> converts every cell of the column and raises
  \<open>ValueError\<close> at the first one \<open>float()\<close> rejects; \<open>None\<close> in the result is
  NaN.\<close>

fun astype_float :: "num_cell list \<Rightarrow> error + rat option list" where
  "astype_float [] = Inr []"
| "astype_float (c # cs) =
     (case c of
        NonNumeric \<Rightarrow> Inl ValueError
      | NaN \<Rightarrow> (case astype_float cs of Inl e \<Rightarrow> Inl e | Inr vs \<Rightarrow> Inr (None # vs))
      | Num x \<Rightarrow> (case astype_float cs of Inl e \<Rightarrow> Inl e | Inr vs \<Rightarrow> Inr (Some x # vs)))"

text \<open>\<open>series >= c\<close>: a comparison with NaN is false.\<close>

definition ge_float :: "rat \<Rightarrow> rat option \<Rightarrow> bool" where
  "ge_float c v = (case v of None \<Rightarrow> False | Some x \<Rightarrow> c \<le> x)"

text \<open>\<open>df[mask]\<close> with a boolean mask that has one entry per row.\<close>

definition boolean_index :: "'a list \<Rightarrow> bool list \<Rightarrow> 'a list" where
  "boolean_index df msk = map fst (filter snd (zip df msk))"

text \<open>
  \<open>Series.str.contains(pat, na=False)\<close> on one value and Python's \<open>pat in s\<close>.
  The first searches for \<open>pat\<close> as a regular expression; patterns are taken to be
  plain text (no regular-expression metacharacter), for which the search is the
  substring test.
\<close>

definition str_contains :: "string \<Rightarrow> string \<Rightarrow> bool" where
  "str_contains pat s = sublist pat s"

text \<open>
  \<open>df[df[col].apply(f)]\<close>. On a frame with rows, \<open>apply\<close> gives a boolean mask and
  the rows where \<open>f\<close> holds are kept. On a frame without rows, \<open>Series.apply\<close> gives
  an empty Series of the column's own (object) dtype; \<open>df[...]\<close> does not take an
  empty object-dtype key as a mask but as an empty list of column labels, and the result
  is a frame without columns. \<open>None\<close> is that result; reading a column of it raises
  \<open>KeyError\<close>.
\<close>

definition apply_index :: "('a \<Rightarrow> bool) \<Rightarrow> 'a list \<Rightarrow> 'a list option" where
  "apply_index f df = (if df = [] then None else Some (boolean_index df (map f df)))"

text \<open>\<open>drop_duplicates()\<close> keeps the first occurrence of every row.\<close>

fun drop_duplicates :: "'a list \<Rightarrow> 'a list" where
  "drop_duplicates [] = []"
| "drop_duplicates (x # xs) = x # drop_duplicates (filter (\<lambda>y. y \<noteq> x) xs)"

text \<open>\<open>groupby('projectID')['name'].apply(list).reset_index()\<close>: one row per
  project id, ids ascending, with the names of the project in row order.\<close>

definition groupby_apply_list :: "(int \<times> string) list \<Rightarrow> (int \<times> string list) list" where
  "groupby_apply_list df =
     map (\<lambda>k. (k, map snd (filter (\<lambda>r. fst r = k) df))) (sort (remdups (map fst df)))"

text \<open>\<open>head(n)\<close>: the first \<open>n\<close> rows; for a negative \<open>n\<close>, all rows but the
  last \<open>-n\<close>.\<close>

definition head :: "int \<Rightarrow> 'a list \<Rightarrow> 'a list" where
  "head n df = (if 0 \<le> n then take (nat n) df else take (length df - nat (- n)) df)"

section \<open>The filter steps\<close>

definition isinstance_str_and :: "(string \<Rightarrow> bool) \<Rightarrow> string option \<Rightarrow> bool" where
  "isinstance_str_and f c = (case c of Some s \<Rightarrow> f s | None \<Rightarrow> False)"

definition field_step :: "string \<Rightarrow> tables \<Rightarrow> error + tables" where
  "field_step ff t =
     (case t of (df_proj, df_org) \<Rightarrow>
        (case apply_index (\<lambda>r. isinstance_str_and (sublist ff) (sci_voc_titles r)) df_proj of
           None \<Rightarrow> Inl (KeyError ''projectID'')
         | Some df_proj' \<Rightarrow>
             Inr (df_proj', filter (\<lambda>r. projectID r \<in> set (map projectID df_proj')) df_org)))"

definition org_types_step :: "string list \<Rightarrow> tables \<Rightarrow> tables" where
  "org_types_step ts t =
     (case t of (df_proj, df_org) \<Rightarrow>
        (df_proj, filter (\<lambda>r. astype_str (activityType r) \<in> set ts) df_org))"

definition countries_step :: "string list \<Rightarrow> tables \<Rightarrow> tables" where
  "countries_step cs t =
     (case t of (df_proj, df_org) \<Rightarrow>
        (df_proj, filter (\<lambda>r. astype_str (country r) \<in> set cs) df_org))"

definition discipline_step :: "string \<Rightarrow> tables \<Rightarrow> tables" where
  "discipline_step d t =
     (case t of (df_proj, df_org) \<Rightarrow>
        (df_proj, filter (\<lambda>r. str_contains d (astype_str (discipline r))) df_org))"

definition year_step :: "string \<Rightarrow> tables \<Rightarrow> tables" where
  "year_step y t =
     (case t of (df_proj, df_org) \<Rightarrow>
        (df_proj, filter (\<lambda>r. str_contains y (astype_str (startDate r))) df_org))"

definition contribution_step :: "rat \<Rightarrow> tables \<Rightarrow> error + tables" where
  "contribution_step c t =
     (case t of (df_proj, df_org) \<Rightarrow>
        (case astype_float (map contribution_col df_org) of
           Inl e \<Rightarrow> Inl e
         | Inr vs \<Rightarrow> Inr (df_proj, boolean_index df_org (map (ge_float c) vs))))"

definition project_type_step :: "string \<Rightarrow> tables \<Rightarrow> error + tables" where
  "project_type_step call t =
     (case t of (df_proj, df_org) \<Rightarrow>
        (case apply_index (\<lambda>r. isinstance_str_and (sublist call) (fundingScheme r)) df_proj of
           None \<Rightarrow> Inl (KeyError ''projectID'')
         | Some df_proj' \<Rightarrow>
             Inr (df_proj', filter (\<lambda>r. projectID r \<in> set (map projectID df_proj')) df_org)))"

text \<open>Sequencing of steps that may raise.\<close>

definition and_then :: "error + 'a \<Rightarrow> ('a \<Rightarrow> error + 'b) \<Rightarrow> error + 'b" where
  "and_then r f = (case r of Inl e \<Rightarrow> Inl e | Inr x \<Rightarrow> f x)"

fun for_each :: "('x \<Rightarrow> 'a \<Rightarrow> error + 'a) \<Rightarrow> 'x list \<Rightarrow> 'a \<Rightarrow> error + 'a" where
  "for_each step [] t = Inr t"
| "for_each step (x # xs) t = and_then (step x t) (for_each step xs)"

text \<open>Python truth values of the optional arguments: \<open>None\<close>, the empty list, the
  empty string and the number 0 are false.\<close>

definition truthy_list :: "'a list option \<Rightarrow> 'a list option" where
  "truthy_list a = (case a of Some (x # xs) \<Rightarrow> Some (x # xs) | _ \<Rightarrow> None)"

definition truthy_num :: "rat option \<Rightarrow> rat option" where
  "truthy_num a = (case a of Some c \<Rightarrow> (if c = 0 then None else Some c) | None \<Rightarrow> None)"

definition default_org_types :: "string list" where
  "default_org_types = [''HES'', ''REC'', ''PUB'', ''PRC'', ''SME'']"

text \<open>The filter part of \<open>plot_collaboration_network\<close>, block by block in the order
  of the source.\<close>

definition filter_tables :: "config \<Rightarrow> tables \<Rightarrow> error + tables" where
  "filter_tables cfg t =
     (let types = (case org_types cfg of None \<Rightarrow> default_org_types | Some ts \<Rightarrow> ts) in
      and_then (case truthy_list (field_filter cfg) of
                  Some ff \<Rightarrow> field_step ff t | None \<Rightarrow> Inr t) (\<lambda>t.
      let t = (case truthy_list (Some types) of
                 Some ts \<Rightarrow> org_types_step ts t | None \<Rightarrow> t);
          t = (case truthy_list (countries cfg) of
                 Some cs \<Rightarrow> countries_step cs t | None \<Rightarrow> t);
          t = (case truthy_list (disciplines cfg) of
                 Some ds \<Rightarrow> fold discipline_step ds t | None \<Rightarrow> t);
          t = (case truthy_list (year cfg) of
                 Some y \<Rightarrow> year_step y t | None \<Rightarrow> t)
      in
      and_then (case truthy_num (contribution cfg) of
                  Some c \<Rightarrow> contribution_step c t | None \<Rightarrow> Inr t) (\<lambda>t.
      case truthy_list (project_type cfg) of
        Some calls \<Rightarrow> for_each project_type_step calls t | None \<Rightarrow> Inr t)))"

section \<open>The collaboration graph\<close>

text \<open>\<open>itertools.combinations(names, 2)\<close>.\<close>

fun combinations2 :: "'a list \<Rightarrow> ('a \<times> 'a) list" where
  "combinations2 [] = []"
| "combinations2 (x # xs) = map (Pair x) xs @ combinations2 xs"

text \<open>\<open>collections.Counter\<close> of a list: the distinct elements in the order of their
  first occurrence, each with the number of its occurrences.\<close>

definition Counter :: "'a list \<Rightarrow> ('a \<times> nat) list" where
  "Counter xs = map (\<lambda>x. (x, count_list xs x)) (drop_duplicates xs)"

text \<open>\<open>networkx.Graph\<close>: the nodes in insertion order and, for every edge, its
  \<open>weight\<close> attribute, stored under both orientations. \<open>add_edge\<close> on an edge
  that is already there overwrites the weight.\<close>

record graph =
  nodes :: "string list"
  adj :: "string \<times> string \<Rightarrow> nat option"

definition Graph :: graph where
  "Graph = \<lparr>nodes = [], adj = (\<lambda>e. None)\<rparr>"

definition add_node :: "string \<Rightarrow> string list \<Rightarrow> string list" where
  "add_node u ns = (if u \<in> set ns then ns else ns @ [u])"

definition add_edge :: "(string \<times> string) \<times> nat \<Rightarrow> graph \<Rightarrow> graph" where
  "add_edge e G =
     (case e of ((u, v), weight) \<Rightarrow>
        \<lparr>nodes = add_node v (add_node u (nodes G)),
         adj = (adj G)((u, v) \<mapsto> weight, (v, u) \<mapsto> weight)\<rparr>)"

text \<open>The project list after the participant check and the truncation:
  \<open>collab_df\<close> at the point where the edge list is built.\<close>

definition collab_df :: "config \<Rightarrow> organization_row list \<Rightarrow> error + (int \<times> string list) list" where
  "collab_df cfg df_org =
     (let pairs = drop_duplicates (map (\<lambda>r. (projectID r, name r)) df_org);
          grouped = groupby_apply_list pairs
      in case apply_index (\<lambda>g. min_participants cfg \<le> int (length (snd g))) grouped of
           None \<Rightarrow> Inl (KeyError ''name'')
         | Some kept \<Rightarrow> Inr (head (max_projects cfg) kept))"

definition edge_list :: "(int \<times> string list) list \<Rightarrow> (string \<times> string) list" where
  "edge_list collab = concat (map (\<lambda>g. combinations2 (snd g)) collab)"

definition build_graph :: "(int \<times> string list) list \<Rightarrow> graph" where
  "build_graph collab = fold add_edge (Counter (edge_list collab)) Graph"

text \<open>The function up to the graph \<open>G\<close> that is then laid out and drawn; the layout
  and the figure are the work of networkx and plotly and are not modelled.\<close>

definition plot_collaboration_network :: "config \<Rightarrow> tables \<Rightarrow> error + graph" where
  "plot_collaboration_network cfg t =
     and_then (filter_tables cfg t) (\<lambda>t'.
     and_then (collab_df cfg (snd t')) (\<lambda>collab. Inr (build_graph collab)))"

section \<open>Filter criteria one at a time\<close>

text \<open>Every block of the filter part applies one or more criteria; a criterion is one
  narrowing step on the two tables. \<open>apply_criterion\<close> names the step functions above
  so that they can be applied in any order.\<close>

datatype criterion =
    FieldFilter string
  | OrgTypes "string list"
  | Countries "string list"
  | Discipline string
  | Year string
  | Contribution rat
  | ProjectType string

fun apply_criterion :: "criterion \<Rightarrow> tables \<Rightarrow> error + tables" where
  "apply_criterion (FieldFilter ff) t = field_step ff t"
| "apply_criterion (OrgTypes ts) t = Inr (org_types_step ts t)"
| "apply_criterion (Countries cs) t = Inr (countries_step cs t)"
| "apply_criterion (Discipline d) t = Inr (discipline_step d t)"
| "apply_criterion (Year y) t = Inr (year_step y t)"
| "apply_criterion (Contribution c) t = contribution_step c t"
| "apply_criterion (ProjectType call) t = project_type_step call t"

text \<open>The criteria a configuration switches on, in the order of the source.\<close>

definition criteria :: "config \<Rightarrow> criterion list" where
  "criteria cfg =
     (case truthy_list (field_filter cfg) of Some ff \<Rightarrow> [FieldFilter ff] | None \<Rightarrow> []) @
     (case truthy_list (Some (case org_types cfg of None \<Rightarrow> default_org_types | Some ts \<Rightarrow> ts)) of
        Some ts \<Rightarrow> [OrgTypes ts] | None \<Rightarrow> []) @
     (case truthy_list (countries cfg) of Some cs \<Rightarrow> [Countries cs] | None \<Rightarrow> []) @
     (case truthy_list (disciplines cfg) of Some ds \<Rightarrow> map Discipline ds | None \<Rightarrow> []) @
     (case truthy_list (year cfg) of Some y \<Rightarrow> [Year y] | None \<Rightarrow> []) @
     (case truthy_num (contribution cfg) of Some c \<Rightarrow> [Contribution c] | None \<Rightarrow> []) @
     (case truthy_list (project_type cfg) of Some calls \<Rightarrow> map ProjectType calls | None \<Rightarrow> [])"

text \<open>The reference the filter part is compared with: the conjunction of the
  predicates of a set of criteria. A criterion on the project table keeps the projects
  that satisfy it and the organization rows of a kept project; a criterion on the
  organization table keeps the rows that satisfy it. A value that is missing or does not
  parse does not satisfy a contribution threshold.\<close>

fun project_predicate :: "criterion \<Rightarrow> project_row \<Rightarrow> bool" where
  "project_predicate (FieldFilter ff) p = isinstance_str_and (sublist ff) (sci_voc_titles p)"
| "project_predicate (ProjectType call) p = isinstance_str_and (sublist call) (fundingScheme p)"
| "project_predicate _ p = True"

fun organization_predicate :: "criterion \<Rightarrow> organization_row \<Rightarrow> bool" where
  "organization_predicate (OrgTypes ts) r = (astype_str (activityType r) \<in> set ts)"
| "organization_predicate (Countries cs) r = (astype_str (country r) \<in> set cs)"
| "organization_predicate (Discipline d) r = str_contains d (astype_str (discipline r))"
| "organization_predicate (Year y) r = str_contains y (astype_str (startDate r))"
| "organization_predicate (Contribution c) r =
     (case contribution_col r of Num x \<Rightarrow> c \<le> x | _ \<Rightarrow> False)"
| "organization_predicate _ r = True"

fun on_projects :: "criterion \<Rightarrow> bool" where
  "on_projects (FieldFilter ff) = True"
| "on_projects (ProjectType call) = True"
| "on_projects _ = False"

fun is_org_types :: "criterion \<Rightarrow> bool" where
  "is_org_types (OrgTypes ts) = True"
| "is_org_types _ = False"

definition conjunction :: "criterion list \<Rightarrow> tables \<Rightarrow> tables" where
  "conjunction cs t =
     (case t of (df_proj, df_org) \<Rightarrow>
        let df_proj' = filter (\<lambda>p. \<forall>c \<in> set cs. project_predicate c p) df_proj in
        (df_proj',
         filter (\<lambda>r. (\<forall>c \<in> set cs. organization_predicate c r) \<and>
                     ((\<exists>c \<in> set cs. on_projects c) \<longrightarrow>
                        projectID r \<in> set (map projectID df_proj'))) df_org))"

text \<open>The number of projects of a project list in which two names both appear.\<close>

definition cooccurrences :: "(int \<times> string list) list \<Rightarrow> string \<Rightarrow> string \<Rightarrow> nat" where
  "cooccurrences collab a b = length (filter (\<lambda>g. a \<in> set (snd g) \<and> b \<in> set (snd g)) collab)"

section \<open>Example inputs\<close>

text \<open>The defaults of the signature of \<open>plot_collaboration_network\<close>.\<close>

definition default_config :: config where
  "default_config =
     \<lparr>field_filter = None, org_types = None, max_projects = 1000, min_participants = 2,
      countries = None, disciplines = None, year = None, contribution = None,
      project_type = None\<rparr>"

text \<open>An organization row of project \<open>p\<close> for institution \<open>n\<close> that passes the default
  organization types.\<close>

definition org_row :: "int \<Rightarrow> string \<Rightarrow> organization_row" where
  "org_row p n =
     \<lparr>projectID = p, name = n, activityType = Some ''HES'', country = Some ''BE'',
      discipline = Some ''physics'', startDate = Some ''2021-01-01'',
      contribution_col = Num 100\<rparr>"

definition proj_row :: "int \<Rightarrow> project_row" where
  "proj_row p = \<lparr>projectID = p, sci_voc_titles = Some ''ecosystems'',
                 fundingScheme = Some ''HORIZON-RIA''\<rparr>"

section \<open>Properties of the pandas operations\<close>

lemma boolean_index_map: "boolean_index df (map f df) = filter f df"
  by (induction df) (auto simp: boolean_index_def)

lemma astype_float_Inr:
  "astype_float cs = Inr vs \<Longrightarrow>
     NonNumeric \<notin> set cs \<and> vs = map (\<lambda>c. case c of Num x \<Rightarrow> Some x | _ \<Rightarrow> None) cs"
  by (induction cs arbitrary: vs) (auto split: num_cell.splits sum.splits)

lemma astype_float_Inl:
  "astype_float cs = Inl e \<Longrightarrow> e = ValueError \<and> NonNumeric \<in> set cs"
  by (induction cs) (auto split: num_cell.splits sum.splits)

lemma contribution_step_Inr:
  "contribution_step c (ps, rs) = Inr t' \<Longrightarrow>
     NonNumeric \<notin> contribution_col ` set rs \<and>
     t' = (ps, filter (\<lambda>r. case contribution_col r of Num x \<Rightarrow> c \<le> x | _ \<Rightarrow> False) rs)"
proof -
  assume a: "contribution_step c (ps, rs) = Inr t'"
  then obtain vs where vs: "astype_float (map contribution_col rs) = Inr vs"
    and t': "t' = (ps, boolean_index rs (map (ge_float c) vs))"
    by (auto simp: contribution_step_def split: sum.splits)
  from astype_float_Inr[OF vs] have nn: "NonNumeric \<notin> contribution_col ` set rs"
    and vs': "vs = map (\<lambda>c. case c of Num x \<Rightarrow> Some x | _ \<Rightarrow> None) (map contribution_col rs)"
    by auto
  have "map (ge_float c) vs = map (\<lambda>r. case contribution_col r of Num x \<Rightarrow> c \<le> x | _ \<Rightarrow> False) rs"
    unfolding vs' by (auto simp: ge_float_def split: num_cell.splits)
  with t' nn show ?thesis by (simp add: boolean_index_map)
qed

lemma set_drop_duplicates [simp]: "set (drop_duplicates xs) = set xs"
  by (induction xs rule: drop_duplicates.induct) auto

lemma distinct_drop_duplicates [simp]: "distinct (drop_duplicates xs)"
  by (induction xs rule: drop_duplicates.induct) auto

lemma drop_duplicates_Nil [simp]: "drop_duplicates xs = [] \<longleftrightarrow> xs = []"
  by (cases xs) auto

lemma groupby_Nil: "groupby_apply_list df = [] \<longleftrightarrow> df = []"
proof -
  have "sort (remdups (map fst df)) = [] \<longleftrightarrow> set (sort (remdups (map fst df))) = {}"
    by (simp only: set_empty)
  then show ?thesis by (simp add: groupby_apply_list_def)
qed

lemma groupby_names_nonempty:
  "g \<in> set (groupby_apply_list df) \<Longrightarrow> snd g \<noteq> []"
  by (force simp: groupby_apply_list_def filter_empty_conv)

lemma groupby_names_distinct:
  "distinct df \<Longrightarrow> g \<in> set (groupby_apply_list df) \<Longrightarrow> distinct (snd g)"
  by (auto simp: groupby_apply_list_def distinct_map inj_on_def)

lemma length_combinations2: "length (combinations2 xs) = length xs * (length xs - 1) div 2"
proof (induction xs)
  case Nil
  then show ?case by simp
next
  case (Cons x xs)
  have "length xs + length xs * (length xs - 1) div 2 = (length xs + 1) * length xs div 2"
    by (cases "length xs") (auto simp: algebra_simps)
  with Cons show ?case by simp
qed

lemma set_combinations2: "(u, v) \<in> set (combinations2 xs) \<Longrightarrow> u \<in> set xs \<and> v \<in> set xs"
  by (induction xs) auto

lemma combinations2_no_self:
  "distinct xs \<Longrightarrow> (u, v) \<in> set (combinations2 xs) \<Longrightarrow> u \<noteq> v"
  by (induction xs) (auto dest: set_combinations2)

lemma distinct_combinations2: "distinct xs \<Longrightarrow> distinct (combinations2 xs)"
  by (induction xs) (auto simp: distinct_map inj_on_def dest: set_combinations2)

lemma Counter_member: "(k, w) \<in> set (Counter xs) \<Longrightarrow> k \<in> set xs \<and> w = count_list xs k"
  by (auto simp: Counter_def)

lemma adj_add_edge_fun:
  "adj (add_edge ((u, v), w) G) = (adj G)((u, v) \<mapsto> w, (v, u) \<mapsto> w)"
  unfolding add_edge_def by simp

lemma adj_add_edge:
  "adj (add_edge ((u, v), w) G) (a, b) =
     (if (a = u \<and> b = v) \<or> (a = v \<and> b = u) then Some w else adj G (a, b))"
  unfolding adj_add_edge_fun fun_upd_def
  by (simp only: prod.inject if_distrib split: if_splits) blast

lemma adj_fold_add_edge:
  "adj (fold add_edge es G) (a, b) = Some w \<Longrightarrow>
     adj G (a, b) = Some w \<or> (((a, b), w) \<in> set es \<or> ((b, a), w) \<in> set es)"
proof (induction es arbitrary: G)
  case Nil
  then show ?case by simp
next
  case (Cons e es)
  obtain u v w' where e: "e = ((u, v), w')" by (cases e) auto
  from Cons.prems have "adj (fold add_edge es (add_edge e G)) (a, b) = Some w" by simp
  from Cons.IH[OF this]
  consider "adj (add_edge e G) (a, b) = Some w" | "((a, b), w) \<in> set es \<or> ((b, a), w) \<in> set es"
    by blast
  then show ?case
  proof cases
    case 1
    show ?thesis
    proof (cases "(a = u \<and> b = v) \<or> (a = v \<and> b = u)")
      case True
      with 1 have "w = w'" by (simp only: e adj_add_edge if_True option.inject)
      with True show ?thesis unfolding e by fastforce
    next
      case False
      with 1 have "adj G (a, b) = Some w" by (simp only: e adj_add_edge if_False)
      then show ?thesis by blast
    qed
  next
    case 2
    then show ?thesis by auto
  qed
qed

lemma adj_build_graph:
  "adj (build_graph collab) (a, b) = Some w \<Longrightarrow>
     ((a, b) \<in> set (edge_list collab) \<and> w = count_list (edge_list collab) (a, b)) \<or>
     ((b, a) \<in> set (edge_list collab) \<and> w = count_list (edge_list collab) (b, a))"
proof -
  assume "adj (build_graph collab) (a, b) = Some w"
  then have "adj (fold add_edge (Counter (edge_list collab)) Graph) (a, b) = Some w"
    by (simp only: build_graph_def)
  from adj_fold_add_edge[OF this]
  have "((a, b), w) \<in> set (Counter (edge_list collab)) \<or> ((b, a), w) \<in> set (Counter (edge_list collab))"
    by (simp add: Graph_def)
  then show ?thesis using Counter_member by fast
qed

section \<open>Properties of the project list and the graph\<close>

lemma head_subset: "set (head n xs) \<subseteq> set xs"
  by (auto simp: head_def dest: in_set_takeD)

lemma collab_df_Inr:
  "collab_df cfg df_org = Inr collab \<Longrightarrow>
     df_org \<noteq> [] \<and>
     collab = head (max_projects cfg)
       (filter (\<lambda>g. min_participants cfg \<le> int (length (snd g)))
          (groupby_apply_list (drop_duplicates (map (\<lambda>r. (projectID r, name r)) df_org))))"
  unfolding collab_df_def Let_def
  by (simp add: apply_index_def boolean_index_map groupby_Nil split: if_splits)

lemma collab_df_Inl:
  "collab_df cfg df_org = Inl e \<Longrightarrow> df_org = [] \<and> e = KeyError ''name''"
  unfolding collab_df_def Let_def
  by (simp add: apply_index_def boolean_index_map groupby_Nil split: if_splits)

lemma collab_df_member:
  assumes "collab_df cfg df_org = Inr collab" and "g \<in> set collab"
  shows "g \<in> set (groupby_apply_list (drop_duplicates (map (\<lambda>r. (projectID r, name r)) df_org)))
    \<and> min_participants cfg \<le> int (length (snd g))"
proof -
  let ?q = "filter (\<lambda>g. min_participants cfg \<le> int (length (snd g)))
          (groupby_apply_list (drop_duplicates (map (\<lambda>r. (projectID r, name r)) df_org)))"
  from collab_df_Inr[OF assms(1)] have "collab = head (max_projects cfg) ?q" by simp
  with assms(2) head_subset[of "max_projects cfg" ?q] have "g \<in> set ?q" by blast
  then show ?thesis by simp
qed

lemma collab_df_distinct:
  assumes "collab_df cfg df_org = Inr collab" and "g \<in> set collab"
  shows "distinct (snd g)"
proof -
  from collab_df_member[OF assms]
  have "g \<in> set (groupby_apply_list (drop_duplicates (map (\<lambda>r. (projectID r, name r)) df_org)))"
    by simp
  then show ?thesis by (rule groupby_names_distinct[OF distinct_drop_duplicates])
qed

lemma plot_Inr:
  assumes "plot_collaboration_network cfg t = Inr G"
  obtains t' collab where "filter_tables cfg t = Inr t'"
    and "collab_df cfg (snd t') = Inr collab" and "G = build_graph collab"
proof (cases "filter_tables cfg t")
  case (Inl e)
  with assms show ?thesis
    by (simp add: plot_collaboration_network_def and_then_def)
next
  case (Inr t')
  show ?thesis
  proof (cases "collab_df cfg (snd t')")
    case (Inl e)
    with Inr assms show ?thesis
      by (simp add: plot_collaboration_network_def and_then_def)
  next
    case c: (Inr collab)
    with Inr assms have "G = build_graph collab"
      by (simp add: plot_collaboration_network_def and_then_def)
    with Inr c that show ?thesis by blast
  qed
qed

lemma edge_list_member:
  "e \<in> set (edge_list collab) \<Longrightarrow> \<exists>g \<in> set collab. e \<in> set (combinations2 (snd g))"
  by (auto simp: edge_list_def)


lemma plot_eval:
  "filter_tables cfg t = Inr t' \<Longrightarrow> collab_df cfg (snd t') = Inr collab \<Longrightarrow>
     plot_collaboration_network cfg t = Inr (build_graph collab)"
  by (simp add: plot_collaboration_network_def and_then_def)

lemma build_graph_Nil: "build_graph [] = Graph"
  by (simp add: build_graph_def edge_list_def Counter_def)

lemma collab_df_nonempty:
  "df_org \<noteq> [] \<Longrightarrow>
     collab_df cfg df_org = Inr (head (max_projects cfg)
       (filter (\<lambda>g. min_participants cfg \<le> int (length (snd g)))
          (groupby_apply_list (drop_duplicates (map (\<lambda>r. (projectID r, name r)) df_org)))))"
  unfolding collab_df_def Let_def
  by (simp add: apply_index_def boolean_index_map groupby_Nil)

lemma filter_tables_ignores:
  "filter_tables (cfg\<lparr>min_participants := m, max_projects := n\<rparr>) t = filter_tables cfg t"
  by (simp add: filter_tables_def)

lemma count_list_distinct:
  "distinct xs \<Longrightarrow> count_list xs e = (if e \<in> set xs then 1 else 0)"
  by (induction xs) auto

lemma count_edge_list_le:
  assumes "\<forall>g \<in> set collab. distinct (snd g)"
  shows "count_list (edge_list collab) (a, b) \<le> cooccurrences collab a b"
  using assms
proof (induction collab)
  case Nil
  then show ?case by (simp add: edge_list_def cooccurrences_def)
next
  case (Cons g collab)
  then have d: "distinct (snd g)" and rest: "\<forall>g \<in> set collab. distinct (snd g)" by simp_all
  have "count_list (combinations2 (snd g)) (a, b) \<le> (if a \<in> set (snd g) \<and> b \<in> set (snd g) then 1 else 0)"
    using count_list_distinct[OF distinct_combinations2[OF d], of "(a, b)"]
      set_combinations2[of a b "snd g"] by auto
  with Cons.IH[OF rest] show ?case
    by (auto simp: edge_list_def cooccurrences_def)
qed

lemma cooccurrences_commute: "cooccurrences collab a b = cooccurrences collab b a"
  by (simp add: cooccurrences_def conj_commute)

lemma count_list_pos: "e \<in> set xs \<Longrightarrow> 0 < count_list xs e"
  by (induction xs) auto

lemma head_nonneg: "0 \<le> n \<Longrightarrow> head n xs = take (nat n) xs"
  by (simp add: head_def)

lemma edge_list_Cons: "edge_list (g # collab) = combinations2 (snd g) @ edge_list collab"
  by (simp add: edge_list_def)

lemma edge_list_append: "edge_list (xs @ ys) = edge_list xs @ edge_list ys"
  by (simp add: edge_list_def)

lemma length_edge_list:
  "length (edge_list collab) =
     sum_list (map (\<lambda>g. length (snd g) * (length (snd g) - 1) div 2) collab)"
  by (induction collab) (simp_all add: edge_list_def length_combinations2)

lemma combinations2_complete:
  "u \<in> set xs \<Longrightarrow> v \<in> set xs \<Longrightarrow> u \<noteq> v \<Longrightarrow>
     (u, v) \<in> set (combinations2 xs) \<or> (v, u) \<in> set (combinations2 xs)"
  by (induction xs) auto

lemma combinations2_asym:
  "distinct xs \<Longrightarrow> (u, v) \<in> set (combinations2 xs) \<Longrightarrow> (v, u) \<notin> set (combinations2 xs)"
  by (induction xs) (auto dest: set_combinations2)

lemma adj_add_edge_mono: "adj G e \<noteq> None \<Longrightarrow> adj (add_edge x G) e \<noteq> None"
proof -
  obtain u v w where x: "x = ((u, v), w)" by (cases x) auto
  assume "adj G e \<noteq> None"
  then show ?thesis unfolding x adj_add_edge_fun by (simp add: fun_upd_def)
qed

lemma adj_fold_mono: "adj G e \<noteq> None \<Longrightarrow> adj (fold add_edge es G) e \<noteq> None"
proof (induction es arbitrary: G)
  case Nil
  then show ?case by simp
next
  case (Cons x es)
  from Cons.IH[OF adj_add_edge_mono[OF Cons.prems, of x]] show ?case by simp
qed

lemma adj_add_edge_key:
  "adj (add_edge ((u, v), w) G) (u, v) \<noteq> None \<and> adj (add_edge ((u, v), w) G) (v, u) \<noteq> None"
  unfolding adj_add_edge_fun by (simp add: fun_upd_def)

lemma adj_fold_key:
  "((u, v), w) \<in> set es \<Longrightarrow>
     adj (fold add_edge es G) (u, v) \<noteq> None \<and> adj (fold add_edge es G) (v, u) \<noteq> None"
proof (induction es arbitrary: G)
  case Nil
  then show ?case by simp
next
  case (Cons e es)
  show ?case
  proof (cases "e = ((u, v), w)")
    case True
    with adj_add_edge_key[of u v w G] adj_fold_mono[of "add_edge e G" _ es]
    show ?thesis by simp
  next
    case False
    with Cons.prems have "((u, v), w) \<in> set es" by simp
    from Cons.IH[OF this] show ?thesis by simp
  qed
qed

lemma Counter_key: "k \<in> set xs \<Longrightarrow> (k, count_list xs k) \<in> set (Counter xs)"
  by (simp add: Counter_def image_iff)

lemma adj_build_graph_key:
  "(u, v) \<in> set (edge_list collab) \<Longrightarrow>
     adj (build_graph collab) (u, v) \<noteq> None \<and> adj (build_graph collab) (v, u) \<noteq> None"
  unfolding build_graph_def by (rule adj_fold_key[OF Counter_key])

section \<open>The filter part as a sequence of criteria\<close>

lemma and_then_Inr [simp]: "and_then (Inr x) f = f x"
  by (simp add: and_then_def)

lemma and_then_Inl [simp]: "and_then (Inl e) f = Inl e"
  by (simp add: and_then_def)

lemma and_then_eq_Inr:
  "and_then r f = Inr y \<longleftrightarrow> (\<exists>x. r = Inr x \<and> f x = Inr y)"
  by (cases r) simp_all

lemma for_each_append:
  "for_each step (xs @ ys) t = and_then (for_each step xs t) (for_each step ys)"
proof (induction xs arbitrary: t)
  case Nil
  then show ?case by simp
next
  case (Cons x xs)
  then show ?case by (cases "step x t") simp_all
qed

lemma for_each_disciplines:
  "for_each apply_criterion (map Discipline ds) t = Inr (fold discipline_step ds t)"
  by (induction ds arbitrary: t) simp_all

lemma for_each_project_types:
  "for_each apply_criterion (map ProjectType calls) t = for_each project_type_step calls t"
proof (induction calls arbitrary: t)
  case Nil
  then show ?case by simp
next
  case (Cons c cs)
  then show ?case by (cases "project_type_step c t") simp_all
qed

lemma and_then_for_each_Nil [simp]: "and_then r (for_each step []) = r"
  by (cases r) simp_all

lemma filter_tables_criteria:
  "filter_tables cfg t = for_each apply_criterion (criteria cfg) t"
proof -
  let ?types = "case org_types cfg of None \<Rightarrow> default_org_types | Some ts \<Rightarrow> ts"
  let ?c1 = "case truthy_list (field_filter cfg) of Some ff \<Rightarrow> [FieldFilter ff] | None \<Rightarrow> []"
  let ?c2 = "case truthy_list (Some ?types) of Some ts \<Rightarrow> [OrgTypes ts] | None \<Rightarrow> []"
  let ?c3 = "case truthy_list (countries cfg) of Some cs \<Rightarrow> [Countries cs] | None \<Rightarrow> []"
  let ?c4 = "case truthy_list (disciplines cfg) of Some ds \<Rightarrow> map Discipline ds | None \<Rightarrow> []"
  let ?c5 = "case truthy_list (year cfg) of Some y \<Rightarrow> [Year y] | None \<Rightarrow> []"
  let ?c6 = "case truthy_num (contribution cfg) of Some c \<Rightarrow> [Contribution c] | None \<Rightarrow> []"
  let ?c7 = "case truthy_list (project_type cfg) of Some calls \<Rightarrow> map ProjectType calls | None \<Rightarrow> []"
  have s1: "\<And>t. for_each apply_criterion ?c1 t =
      (case truthy_list (field_filter cfg) of Some ff \<Rightarrow> field_step ff t | None \<Rightarrow> Inr t)"
    by (simp split: option.splits)
  have s2: "\<And>t. for_each apply_criterion ?c2 t =
      Inr (case truthy_list (Some ?types) of Some ts \<Rightarrow> org_types_step ts t | None \<Rightarrow> t)"
    by (simp split: option.splits)
  have s3: "\<And>t. for_each apply_criterion ?c3 t =
      Inr (case truthy_list (countries cfg) of Some cs \<Rightarrow> countries_step cs t | None \<Rightarrow> t)"
    by (simp split: option.splits)
  have s4: "\<And>t. for_each apply_criterion ?c4 t =
      Inr (case truthy_list (disciplines cfg) of Some ds \<Rightarrow> fold discipline_step ds t | None \<Rightarrow> t)"
    by (simp add: for_each_disciplines split: option.splits)
  have s5: "\<And>t. for_each apply_criterion ?c5 t =
      Inr (case truthy_list (year cfg) of Some y \<Rightarrow> year_step y t | None \<Rightarrow> t)"
    by (simp split: option.splits)
  have s6: "\<And>t. for_each apply_criterion ?c6 t =
      (case truthy_num (contribution cfg) of Some c \<Rightarrow> contribution_step c t | None \<Rightarrow> Inr t)"
    by (simp split: option.splits)
  have s7: "\<And>t. for_each apply_criterion ?c7 t =
      (case truthy_list (project_type cfg) of Some calls \<Rightarrow> for_each project_type_step calls t
       | None \<Rightarrow> Inr t)"
    by (simp add: for_each_project_types split: option.splits)
  have "for_each apply_criterion (?c1 @ ?c2 @ ?c3 @ ?c4 @ ?c5 @ ?c6 @ ?c7) t = filter_tables cfg t"
    unfolding for_each_append s1 s2 s3 s4 s5 s6 s7 filter_tables_def Let_def
    by (cases "case truthy_list (field_filter cfg) of Some ff \<Rightarrow> field_step ff t | None \<Rightarrow> Inr t")
       simp_all
  then show ?thesis by (simp only: criteria_def)
qed

lemma field_step_eq:
  "field_step ff (ps, rs) =
     (if ps = [] then Inl (KeyError ''projectID'')
      else Inr (filter (\<lambda>p. isinstance_str_and (sublist ff) (sci_voc_titles p)) ps,
                filter (\<lambda>r. projectID r \<in> set (map projectID
                   (filter (\<lambda>p. isinstance_str_and (sublist ff) (sci_voc_titles p)) ps))) rs))"
  by (simp add: field_step_def apply_index_def boolean_index_map)

lemma project_type_step_eq:
  "project_type_step call (ps, rs) =
     (if ps = [] then Inl (KeyError ''projectID'')
      else Inr (filter (\<lambda>p. isinstance_str_and (sublist call) (fundingScheme p)) ps,
                filter (\<lambda>r. projectID r \<in> set (map projectID
                   (filter (\<lambda>p. isinstance_str_and (sublist call) (fundingScheme p)) ps))) rs))"
  by (simp add: project_type_step_def apply_index_def boolean_index_map)

lemma contribution_step_eq:
  "contribution_step c (ps, rs) =
     (if NonNumeric \<in> contribution_col ` set rs then Inl ValueError
      else Inr (ps, filter (\<lambda>r. case contribution_col r of Num x \<Rightarrow> c \<le> x | _ \<Rightarrow> False) rs))"
proof (cases "contribution_step c (ps, rs)")
  case (Inl e)
  then have "astype_float (map contribution_col rs) = Inl e"
    by (simp add: contribution_step_def split: sum.splits)
  from astype_float_Inl[OF this] Inl show ?thesis by simp
next
  case (Inr t')
  from contribution_step_Inr[OF this] Inr show ?thesis by simp
qed

lemma project_predicate_fun:
  "project_predicate (FieldFilter ff) = (\<lambda>p. isinstance_str_and (sublist ff) (sci_voc_titles p))"
  "project_predicate (ProjectType call) = (\<lambda>p. isinstance_str_and (sublist call) (fundingScheme p))"
  "project_predicate (OrgTypes ts) = (\<lambda>p. True)"
  "project_predicate (Countries cs) = (\<lambda>p. True)"
  "project_predicate (Discipline d) = (\<lambda>p. True)"
  "project_predicate (Year y) = (\<lambda>p. True)"
  "project_predicate (Contribution x) = (\<lambda>p. True)"
  by (rule ext, simp)+

lemma apply_criterion_Inr:
  assumes "apply_criterion c (ps, rs) = Inr (ps', rs')"
  shows "ps' = filter (project_predicate c) ps \<and>
         rs' = filter (\<lambda>r. organization_predicate c r \<and>
                (on_projects c \<longrightarrow> projectID r \<in> set (map projectID ps'))) rs"
proof (cases c)
  case (FieldFilter ff)
  with assms show ?thesis by (auto simp: field_step_eq project_predicate_fun split: if_splits)
next
  case (OrgTypes ts)
  with assms show ?thesis by (auto simp: org_types_step_def project_predicate_fun)
next
  case (Countries cs)
  with assms show ?thesis by (auto simp: countries_step_def project_predicate_fun)
next
  case (Discipline d)
  with assms show ?thesis by (auto simp: discipline_step_def project_predicate_fun)
next
  case (Year y)
  with assms show ?thesis by (auto simp: year_step_def project_predicate_fun)
next
  case (Contribution x)
  with assms show ?thesis by (auto simp: contribution_step_eq project_predicate_fun split: if_splits)
next
  case (ProjectType call)
  with assms show ?thesis by (auto simp: project_type_step_eq project_predicate_fun split: if_splits)
qed

lemma not_on_projects: "\<not> on_projects c \<Longrightarrow> project_predicate c p"
  by (cases c) simp_all

lemma on_projects_organization: "on_projects c \<Longrightarrow> organization_predicate c r"
  by (cases c) simp_all

lemma conjunction_Nil: "conjunction [] t = t"
  by (cases t) (simp add: conjunction_def)

lemma conjunction_Cons:
  assumes "apply_criterion c t = Inr t1"
  shows "conjunction cs t1 = conjunction (c # cs) t"
proof -
  obtain ps rs where t: "t = (ps, rs)" by (cases t)
  obtain ps1 rs1 where t1: "t1 = (ps1, rs1)" by (cases t1)
  from assms have a: "apply_criterion c (ps, rs) = Inr (ps1, rs1)" by (simp add: t t1)
  note ps1 = apply_criterion_Inr[OF a, THEN conjunct1]
  note rs1 = apply_criterion_Inr[OF a, THEN conjunct2]
  let ?ps2 = "filter (\<lambda>p. \<forall>c' \<in> set cs. project_predicate c' p) ps1"
  have ps2: "?ps2 = filter (\<lambda>p. \<forall>c' \<in> set (c # cs). project_predicate c' p) ps"
    unfolding ps1 by (simp add: conj_commute)
  have sub: "set ?ps2 \<subseteq> set ps1" by auto
  have same: "?ps2 = ps1" if "\<not> (\<exists>c' \<in> set cs. on_projects c')"
    using that not_on_projects by (auto intro!: filter_True)
  have "filter (\<lambda>r. (\<forall>c' \<in> set cs. organization_predicate c' r) \<and>
                     ((\<exists>c' \<in> set cs. on_projects c') \<longrightarrow> projectID r \<in> set (map projectID ?ps2))) rs1
      = filter (\<lambda>r. (\<forall>c' \<in> set (c # cs). organization_predicate c' r) \<and>
                     ((\<exists>c' \<in> set (c # cs). on_projects c') \<longrightarrow>
                        projectID r \<in> set (map projectID ?ps2))) rs"
  proof (cases "on_projects c")
    case False
    then show ?thesis unfolding rs1 by (auto simp: filter_filter intro!: filter_cong)
  next
    case True
    note oc = on_projects_organization[OF True]
    show ?thesis
    proof (cases "\<exists>c' \<in> set cs. on_projects c'")
      case True
      with \<open>on_projects c\<close> oc sub show ?thesis
        unfolding rs1 by (auto simp: filter_filter intro!: filter_cong)
    next
      case False
      with \<open>on_projects c\<close> oc same[OF False] show ?thesis
        unfolding rs1 by (auto simp: filter_filter intro!: filter_cong)
    qed
  qed
  then show ?thesis
    unfolding t t1 conjunction_def Let_def prod.case ps2[symmetric] by simp
qed

lemma for_each_conjunction:
  "for_each apply_criterion cs t = Inr t' \<Longrightarrow> t' = conjunction cs t"
proof (induction cs arbitrary: t)
  case Nil
  then show ?case by (simp add: conjunction_Nil)
next
  case (Cons c cs)
  from Cons.prems obtain t1 where s: "apply_criterion c t = Inr t1"
    and r: "for_each apply_criterion cs t1 = Inr t'"
    by (auto simp: and_then_eq_Inr)
  from Cons.IH[OF r] conjunction_Cons[OF s] show ?case by simp
qed

lemma conjunction_set: "set cs = set cs' \<Longrightarrow> conjunction cs t = conjunction cs' t"
  by (simp add: conjunction_def)

lemma filters_commute_on_completion:
  "for_each apply_criterion [c, d] t = Inr ta \<Longrightarrow>
     for_each apply_criterion [d, c] t = Inr tb \<Longrightarrow> ta = tb"
proof -
  assume a: "for_each apply_criterion [c, d] t = Inr ta"
    and b: "for_each apply_criterion [d, c] t = Inr tb"
  have "set [c, d] = set [d, c]" by auto
  from conjunction_set[OF this] for_each_conjunction[OF a] for_each_conjunction[OF b]
  show ?thesis by simp
qed

lemma apply_criterion_activityType:
  assumes "\<not> is_org_types c"
  shows "apply_criterion c (ps, map (\<lambda>r. r\<lparr>activityType := f r\<rparr>) rs) =
     (case apply_criterion c (ps, rs) of
        Inl e \<Rightarrow> Inl e
      | Inr t' \<Rightarrow> Inr (fst t', map (\<lambda>r. r\<lparr>activityType := f r\<rparr>) (snd t')))"
proof (cases c)
  case (FieldFilter ff)
  then show ?thesis by (simp add: field_step_eq filter_map comp_def)
next
  case (OrgTypes ts)
  with assms show ?thesis by simp
next
  case (Countries cs)
  then show ?thesis by (simp add: countries_step_def filter_map comp_def)
next
  case (Discipline d)
  then show ?thesis by (simp add: discipline_step_def filter_map comp_def)
next
  case (Year y)
  then show ?thesis by (simp add: year_step_def filter_map comp_def)
next
  case (Contribution x)
  then show ?thesis by (simp add: contribution_step_eq filter_map comp_def image_image)
next
  case (ProjectType call)
  then show ?thesis by (simp add: project_type_step_eq filter_map comp_def)
qed

lemma for_each_activityType:
  assumes "\<forall>c \<in> set cs. \<not> is_org_types c"
  shows "for_each apply_criterion cs (ps, map (\<lambda>r. r\<lparr>activityType := f r\<rparr>) rs) =
     (case for_each apply_criterion cs (ps, rs) of
        Inl e \<Rightarrow> Inl e
      | Inr t' \<Rightarrow> Inr (fst t', map (\<lambda>r. r\<lparr>activityType := f r\<rparr>) (snd t')))"
  using assms
proof (induction cs arbitrary: ps rs)
  case Nil
  then show ?case by simp
next
  case (Cons c cs)
  then have c: "\<not> is_org_types c" and cs: "\<forall>c \<in> set cs. \<not> is_org_types c" by simp_all
  show ?case
  proof (cases "apply_criterion c (ps, rs)")
    case (Inl e)
    with apply_criterion_activityType[OF c, of ps f rs] show ?thesis by simp
  next
    case (Inr t1)
    obtain ps1 rs1 where t1: "t1 = (ps1, rs1)" by (cases t1)
    from Inr apply_criterion_activityType[OF c, of ps f rs] Cons.IH[OF cs, of ps1 rs1]
    show ?thesis by (simp add: t1)
  qed
qed

lemma criteria_no_org_types:
  "\<forall>c \<in> set (criteria (cfg\<lparr>org_types := Some []\<rparr>)). \<not> is_org_types c"
  unfolding criteria_def set_append ball_Un
  by (intro conjI; simp add: truthy_list_def split: option.split list.split; fastforce)

lemma collab_df_activityType:
  "collab_df cfg (map (\<lambda>r. r\<lparr>activityType := f r\<rparr>) rs) = collab_df cfg rs"
  by (simp add: collab_df_def comp_def)

lemma plot_activityType:
  "plot_collaboration_network (cfg\<lparr>org_types := Some []\<rparr>)
     (ps, map (\<lambda>r. r\<lparr>activityType := f r\<rparr>) rs) =
   plot_collaboration_network (cfg\<lparr>org_types := Some []\<rparr>) (ps, rs)"
proof -
  let ?cfg = "cfg\<lparr>org_types := Some []\<rparr>"
  note e = for_each_activityType[OF criteria_no_org_types, of cfg ps f rs]
  show ?thesis
  proof (cases "for_each apply_criterion (criteria ?cfg) (ps, rs)")
    case (Inl err)
    with e show ?thesis
      by (simp add: plot_collaboration_network_def filter_tables_criteria)
  next
    case (Inr t')
    with e show ?thesis
      by (simp add: plot_collaboration_network_def filter_tables_criteria collab_df_activityType)
  qed
qed

lemma conjunction_mono:
  assumes "set cs2 \<subseteq> set cs1" and "\<forall>c \<in> set cs1 - set cs2. \<not> on_projects c"
  shows "fst (conjunction cs1 t) = fst (conjunction cs2 t) \<and>
         set (snd (conjunction cs1 t)) \<subseteq> set (snd (conjunction cs2 t))"
proof -
  obtain ps rs where t: "t = (ps, rs)" by (cases t)
  have pp: "(\<forall>c \<in> set cs1. project_predicate c p) = (\<forall>c \<in> set cs2. project_predicate c p)" for p
    using assms not_on_projects by blast
  have "(\<exists>c \<in> set cs2. on_projects c) \<Longrightarrow> (\<exists>c \<in> set cs1. on_projects c)"
    using assms(1) by blast
  with assms(1) show ?thesis
    unfolding t conjunction_def Let_def prod.case pp by auto
qed

lemma criteria_default_org_types:
  "set (criteria (cfg\<lparr>org_types := None\<rparr>)) =
     insert (OrgTypes default_org_types) (set (criteria (cfg\<lparr>org_types := Some []\<rparr>)))"
  unfolding criteria_def set_append
  by (simp add: truthy_list_def default_org_types_def)

lemma plot_cong:
  "filter_tables cfg t = filter_tables cfg' t \<Longrightarrow>
   min_participants cfg = min_participants cfg' \<Longrightarrow> max_projects cfg = max_projects cfg' \<Longrightarrow>
   plot_collaboration_network cfg t = plot_collaboration_network cfg' t"
  by (simp add: plot_collaboration_network_def collab_df_def cong: option.case_cong)

section \<open>C1: edge weights\<close>

text \<open>
  C1. The claim: the weight of an edge between A and B is the number of retained projects
  in which both appear. \<open>Counter\<close> counts ordered pairs, and \<open>add_edge\<close> overwrites
  the weight of an edge that is already there. With project 1 listing A before B and
  project 2 listing B before A, both names co-occur in two retained projects, the counter
  holds \<open>(A, B)\<close> once and \<open>(B, A)\<close> once, and the edge ends with weight 1.
\<close>

theorem weight_undercounts_cooccurrence:
  "collab_df default_config [org_row 1 ''A'', org_row 1 ''B'', org_row 2 ''B'', org_row 2 ''A''] =
     Inr [(1, [''A'', ''B'']), (2, [''B'', ''A''])] \<and>
   cooccurrences [(1, [''A'', ''B'']), (2, [''B'', ''A''])] ''A'' ''B'' = 2 \<and>
   map_sum id (\<lambda>G. adj G (''A'', ''B''))
     (plot_collaboration_network default_config
        ([], [org_row 1 ''A'', org_row 1 ''B'', org_row 2 ''B'', org_row 2 ''A''])) =
     Inr (Some 1)"
  by code_simp

section \<open>C2: truncation before aggregation\<close>

text \<open>
  C2. Whenever a graph is built and \<open>max_projects\<close> is not negative, the graph is built
  from the first \<open>max_projects\<close> projects that pass the participant check and from
  nothing else: every weight is positive and at most the number of those projects in
  which both names appear. In the scenario where project 1 has Inst A, Inst B and
  Inst C, project 2 has Inst A and Inst B, \<open>min_participants = 2\<close> and
  \<open>max_projects = 1\<close>, the graph is the one of project 1 alone: the edges A-B, A-C
  and B-C, each of weight 1, and no other edge.
\<close>

theorem truncation_before_aggregation:
  "(plot_collaboration_network cfg t = Inr G \<longrightarrow> 0 \<le> max_projects cfg \<longrightarrow>
      (\<exists>df_proj df_org retained.
         filter_tables cfg t = Inr (df_proj, df_org) \<and>
         retained = take (nat (max_projects cfg))
           (filter (\<lambda>g. min_participants cfg \<le> int (length (snd g)))
              (groupby_apply_list (drop_duplicates (map (\<lambda>r. (projectID r, name r)) df_org)))) \<and>
         G = build_graph retained \<and>
         (\<forall>a b w. adj G (a, b) = Some w \<longrightarrow> 0 < w \<and> w \<le> cooccurrences retained a b))) \<and>
   plot_collaboration_network (default_config\<lparr>max_projects := 1\<rparr>)
     ([], [org_row 1 ''Inst A'', org_row 1 ''Inst B'', org_row 1 ''Inst C'',
           org_row 2 ''Inst A'', org_row 2 ''Inst B'']) =
     Inr (build_graph [(1, [''Inst A'', ''Inst B'', ''Inst C''])]) \<and>
   dom (adj (build_graph [(1, [''Inst A'', ''Inst B'', ''Inst C''])])) =
     {(''Inst A'', ''Inst B''), (''Inst B'', ''Inst A''), (''Inst A'', ''Inst C''),
      (''Inst C'', ''Inst A''), (''Inst B'', ''Inst C''), (''Inst C'', ''Inst B'')} \<and>
   map (adj (build_graph [(1, [''Inst A'', ''Inst B'', ''Inst C''])]))
     [(''Inst A'', ''Inst B''), (''Inst A'', ''Inst C''), (''Inst B'', ''Inst C'')] =
     [Some 1, Some 1, Some 1]"
proof (intro conjI impI)
  assume p: "plot_collaboration_network cfg t = Inr G" and n: "0 \<le> max_projects cfg"
  from p show "\<exists>df_proj df_org retained.
         filter_tables cfg t = Inr (df_proj, df_org) \<and>
         retained = take (nat (max_projects cfg))
           (filter (\<lambda>g. min_participants cfg \<le> int (length (snd g)))
              (groupby_apply_list (drop_duplicates (map (\<lambda>r. (projectID r, name r)) df_org)))) \<and>
         G = build_graph retained \<and>
         (\<forall>a b w. adj G (a, b) = Some w \<longrightarrow> 0 < w \<and> w \<le> cooccurrences retained a b)"
  proof (rule plot_Inr)
    fix t' collab
    assume f: "filter_tables cfg t = Inr t'" and c: "collab_df cfg (snd t') = Inr collab"
      and G: "G = build_graph collab"
    obtain df_proj df_org where t': "t' = (df_proj, df_org)" by (cases t')
    from c have c': "collab_df cfg df_org = Inr collab" by (simp add: t')
    from collab_df_Inr[OF c'] n
    have r: "collab = take (nat (max_projects cfg))
           (filter (\<lambda>g. min_participants cfg \<le> int (length (snd g)))
              (groupby_apply_list (drop_duplicates (map (\<lambda>r. (projectID r, name r)) df_org))))"
      by (simp add: head_nonneg)
    have d: "\<forall>g \<in> set collab. distinct (snd g)"
      using collab_df_distinct[OF c'] by blast
    have w: "0 < w \<and> w \<le> cooccurrences collab a b" if "adj G (a, b) = Some w" for a b w
    proof -
      from that have "adj (build_graph collab) (a, b) = Some w" by (simp only: G)
      from adj_build_graph[OF this] count_list_pos
        count_edge_list_le[OF d, of a b] count_edge_list_le[OF d, of b a]
        cooccurrences_commute[of collab a b]
      show ?thesis by auto
    qed
    from f r G w show ?thesis unfolding t' by blast
  qed
next
  have f: "filter_tables (default_config\<lparr>max_projects := 1\<rparr>)
     ([], [org_row 1 ''Inst A'', org_row 1 ''Inst B'', org_row 1 ''Inst C'',
           org_row 2 ''Inst A'', org_row 2 ''Inst B'']) =
     Inr ([], [org_row 1 ''Inst A'', org_row 1 ''Inst B'', org_row 1 ''Inst C'',
           org_row 2 ''Inst A'', org_row 2 ''Inst B''])"
    by code_simp
  have c: "collab_df (default_config\<lparr>max_projects := 1\<rparr>)
     [org_row 1 ''Inst A'', org_row 1 ''Inst B'', org_row 1 ''Inst C'',
           org_row 2 ''Inst A'', org_row 2 ''Inst B''] =
     Inr [(1, [''Inst A'', ''Inst B'', ''Inst C''])]"
    by code_simp
  from plot_eval[OF f] c
  show "plot_collaboration_network (default_config\<lparr>max_projects := 1\<rparr>)
     ([], [org_row 1 ''Inst A'', org_row 1 ''Inst B'', org_row 1 ''Inst C'',
           org_row 2 ''Inst A'', org_row 2 ''Inst B'']) =
     Inr (build_graph [(1, [''Inst A'', ''Inst B'', ''Inst C''])])"
    by simp
next
  have e: "Counter (edge_list [(1, [''Inst A'', ''Inst B'', ''Inst C''])]) =
     [((''Inst A'', ''Inst B''), 1), ((''Inst A'', ''Inst C''), 1), ((''Inst B'', ''Inst C''), 1)]"
    by code_simp
  show "dom (adj (build_graph [(1, [''Inst A'', ''Inst B'', ''Inst C''])])) =
     {(''Inst A'', ''Inst B''), (''Inst B'', ''Inst A''), (''Inst A'', ''Inst C''),
      (''Inst C'', ''Inst A''), (''Inst B'', ''Inst C''), (''Inst C'', ''Inst B'')}"
    unfolding build_graph_def e
    by (simp add: adj_add_edge_fun Graph_def insert_commute)
next
  show "map (adj (build_graph [(1, [''Inst A'', ''Inst B'', ''Inst C''])]))
     [(''Inst A'', ''Inst B''), (''Inst A'', ''Inst C''), (''Inst B'', ''Inst C'')] =
     [Some 1, Some 1, Some 1]"
    by code_simp
qed

theorem truncation_before_aggregation_witness:
  "plot_collaboration_network (default_config\<lparr>max_projects := 1\<rparr>)
     ([], [org_row 1 ''Inst A'', org_row 1 ''Inst B'', org_row 1 ''Inst C'',
           org_row 2 ''Inst A'', org_row 2 ''Inst B'']) =
     Inr (build_graph [(1, [''Inst A'', ''Inst B'', ''Inst C''])]) \<and>
   0 \<le> max_projects (default_config\<lparr>max_projects := 1\<rparr>) \<and>
   adj (build_graph [(1, [''Inst A'', ''Inst B'', ''Inst C''])]) (''Inst A'', ''Inst B'') = Some 1 \<and>
   (\<exists>retained. build_graph [(1, [''Inst A'', ''Inst B'', ''Inst C''])] = build_graph retained \<and>
      1 \<le> cooccurrences retained ''Inst A'' ''Inst B'')"
proof -
  let ?cfg = "default_config\<lparr>max_projects := 1\<rparr>"
  let ?t = "([], [org_row 1 ''Inst A'', org_row 1 ''Inst B'', org_row 1 ''Inst C'',
           org_row 2 ''Inst A'', org_row 2 ''Inst B'']) :: tables"
  let ?G = "build_graph [(1, [''Inst A'', ''Inst B'', ''Inst C''])]"
  note th = truncation_before_aggregation[of ?cfg ?t ?G]
  note p = th[THEN conjunct2, THEN conjunct1]
  have n: "0 \<le> max_projects ?cfg" by (simp add: default_config_def)
  have w: "adj ?G (''Inst A'', ''Inst B'') = Some 1" by code_simp
  note ex = th[THEN conjunct1, rule_format, OF p n]
  from ex have "\<exists>retained. ?G = build_graph retained \<and>
      1 \<le> cooccurrences retained ''Inst A'' ''Inst B''"
  proof (elim exE conjE)
    fix df_proj df_org retained
    assume g: "?G = build_graph retained"
      and b: "\<forall>a b w. adj ?G (a, b) = Some w \<longrightarrow> 0 < w \<and> w \<le> cooccurrences retained a b"
    from b[rule_format, OF w] have "1 \<le> cooccurrences retained ''Inst A'' ''Inst B''"
      by (rule conjunct2)
    with g show ?thesis by (intro exI[of _ retained] conjI)
  qed
  with p n w show ?thesis by (intro conjI)
qed

section \<open>C3: unparseable contribution values\<close>

text \<open>
  C3. The claim: a contribution value that does not parse as a number is excluded by a
  contribution threshold and nothing is raised. \<open>astype(float)\<close> raises
  \<open>ValueError\<close> on such a value, and the call ends with it; a missing value (NaN) is
  excluded without an error.
\<close>

theorem unparseable_contribution_raises:
  "map_sum id nodes
     (plot_collaboration_network (default_config\<lparr>contribution := Some 50\<rparr>)
        ([], [org_row 1 ''A'', org_row 1 ''B'',
              (org_row 1 ''C'')\<lparr>contribution_col := NonNumeric\<rparr>])) =
     Inl ValueError \<and>
   map_sum id nodes
     (plot_collaboration_network (default_config\<lparr>contribution := Some 50\<rparr>)
        ([], [org_row 1 ''A'', org_row 1 ''B'',
              (org_row 1 ''C'')\<lparr>contribution_col := NaN\<rparr>])) =
     Inr [''A'', ''B'']"
  by code_simp

section \<open>C4: argument validation\<close>

text \<open>
  C4, as amended. \<open>plot_collaboration_network\<close> does not check \<open>min_participants\<close>
  or \<open>max_projects\<close>: the filter part is the same for all values of the two, and
  whenever it leaves an organization row the call returns the graph of the first
  \<open>max_projects\<close> projects that pass the participant check. With
  \<open>min_participants \<le> 1\<close> every grouped project passes the check, and with
  \<open>max_projects = 0\<close> the graph is empty.
\<close>

theorem arguments_used_unchecked:
  "filter_tables (cfg\<lparr>min_participants := m, max_projects := n\<rparr>) t = filter_tables cfg t \<and>
   (filter_tables cfg t = Inr (df_proj, df_org) \<longrightarrow> df_org \<noteq> [] \<longrightarrow>
      plot_collaboration_network cfg t =
        Inr (build_graph (head (max_projects cfg)
          (filter (\<lambda>g. min_participants cfg \<le> int (length (snd g)))
             (groupby_apply_list (drop_duplicates (map (\<lambda>r. (projectID r, name r)) df_org)))))) \<and>
      (min_participants cfg \<le> 1 \<longrightarrow>
         filter (\<lambda>g. min_participants cfg \<le> int (length (snd g)))
           (groupby_apply_list (drop_duplicates (map (\<lambda>r. (projectID r, name r)) df_org))) =
         groupby_apply_list (drop_duplicates (map (\<lambda>r. (projectID r, name r)) df_org))) \<and>
      (max_projects cfg = 0 \<longrightarrow> plot_collaboration_network cfg t = Inr Graph))"
proof (intro conjI impI)
  show "filter_tables (cfg\<lparr>min_participants := m, max_projects := n\<rparr>) t = filter_tables cfg t"
    by (rule filter_tables_ignores)
next
  assume f: "filter_tables cfg t = Inr (df_proj, df_org)" and ne: "df_org \<noteq> []"
  from plot_eval[OF f] collab_df_nonempty[OF ne, of cfg]
  show p: "plot_collaboration_network cfg t =
        Inr (build_graph (head (max_projects cfg)
          (filter (\<lambda>g. min_participants cfg \<le> int (length (snd g)))
             (groupby_apply_list (drop_duplicates (map (\<lambda>r. (projectID r, name r)) df_org))))))"
    by simp
  show "plot_collaboration_network cfg t = Inr Graph" if "max_projects cfg = 0"
    using p that by (simp add: head_def build_graph_Nil)
next
  assume m: "min_participants cfg \<le> 1"
  let ?g = "groupby_apply_list (drop_duplicates (map (\<lambda>r. (projectID r, name r)) df_org))"
  have "\<And>g. g \<in> set ?g \<Longrightarrow> min_participants cfg \<le> int (length (snd g))"
  proof -
    fix g assume "g \<in> set ?g"
    from groupby_names_nonempty[OF this] have "1 \<le> length (snd g)"
      by (cases "snd g") simp_all
    with m show "min_participants cfg \<le> int (length (snd g))" by linarith
  qed
  then show "filter (\<lambda>g. min_participants cfg \<le> int (length (snd g))) ?g = ?g"
    by (intro filter_True) blast
qed

theorem arguments_used_unchecked_witness:
  "filter_tables (default_config\<lparr>max_projects := 0, min_participants := 1\<rparr>)
     ([], [org_row 1 ''A'', org_row 1 ''B'']) = Inr ([], [org_row 1 ''A'', org_row 1 ''B'']) \<and>
   [org_row 1 ''A'', org_row 1 ''B''] \<noteq> [] \<and>
   min_participants (default_config\<lparr>max_projects := 0, min_participants := 1\<rparr>) \<le> 1 \<and>
   max_projects (default_config\<lparr>max_projects := 0, min_participants := 1\<rparr>) = 0 \<and>
   plot_collaboration_network (default_config\<lparr>max_projects := 0, min_participants := 1\<rparr>)
     ([], [org_row 1 ''A'', org_row 1 ''B'']) = Inr Graph"
proof -
  let ?cfg = "default_config\<lparr>max_projects := 0, min_participants := 1\<rparr>"
  have f: "filter_tables ?cfg ([], [org_row 1 ''A'', org_row 1 ''B'']) =
      Inr ([], [org_row 1 ''A'', org_row 1 ''B''])"
    by code_simp
  have ne: "[org_row 1 ''A'', org_row 1 ''B''] \<noteq> []" by simp
  have m: "min_participants ?cfg \<le> 1" and x: "max_projects ?cfg = 0"
    by (simp_all add: default_config_def)
  from arguments_used_unchecked[where cfg = ?cfg
      and t = "([], [org_row 1 ''A'', org_row 1 ''B''])"
      and df_proj = "[]" and df_org = "[org_row 1 ''A'', org_row 1 ''B'']"] f ne m x
  show ?thesis by blast
qed

text \<open>
  C4 as stated, that a call with \<open>min_participants < 2\<close> or \<open>max_projects \<le> 0\<close>
  fails with a validation error, does not hold: such calls return a graph.
\<close>

theorem no_argument_validation:
  "map_sum id nodes
     (plot_collaboration_network (default_config\<lparr>min_participants := 1\<rparr>)
        ([], [org_row 1 ''A'', org_row 1 ''B'', org_row 2 ''C''])) = Inr [''A'', ''B''] \<and>
   map_sum id nodes
     (plot_collaboration_network (default_config\<lparr>max_projects := 0\<rparr>)
        ([], [org_row 1 ''A'', org_row 1 ''B'', org_row 2 ''C''])) = Inr [] \<and>
   map_sum id nodes
     (plot_collaboration_network (default_config\<lparr>max_projects := - 1\<rparr>)
        ([], [org_row 1 ''A'', org_row 1 ''B'', org_row 2 ''C'', org_row 2 ''D''])) =
     Inr [''A'', ''B'']"
  by code_simp

section \<open>C5: edge count per project\<close>

text \<open>
  C5. Whenever \<open>plot_collaboration_network\<close> builds a graph, the edge list it
  aggregates is, project by project of the retained project list, the list of the
  2-combinations of the project's names: a project with k names (pairwise distinct after
  \<open>drop_duplicates\<close>) contributes exactly k * (k - 1) / 2 edge instances, no instance
  twice, none pairing a name with itself, and every unordered pair of its names in exactly
  one orientation; every such pair is an edge of the graph. The edge list as a whole has
  as many instances as the sum of k * (k - 1) / 2 over the retained projects.
\<close>

theorem edge_count_law:
  "plot_collaboration_network cfg t = Inr G \<Longrightarrow>
     \<exists>df_proj df_org collab.
       filter_tables cfg t = Inr (df_proj, df_org) \<and>
       collab_df cfg df_org = Inr collab \<and>
       G = build_graph collab \<and>
       length (edge_list collab) =
         sum_list (map (\<lambda>g. length (snd g) * (length (snd g) - 1) div 2) collab) \<and>
       (\<forall>pre pid names post. collab = pre @ (pid, names) # post \<longrightarrow>
          edge_list collab = edge_list pre @ combinations2 names @ edge_list post \<and>
          distinct names \<and>
          length (combinations2 names) = length names * (length names - 1) div 2 \<and>
          distinct (combinations2 names) \<and>
          (\<forall>u v. (u, v) \<in> set (combinations2 names) \<longrightarrow>
             u \<in> set names \<and> v \<in> set names \<and> u \<noteq> v \<and>
             (v, u) \<notin> set (combinations2 names)) \<and>
          (\<forall>u v. u \<in> set names \<longrightarrow> v \<in> set names \<longrightarrow> u \<noteq> v \<longrightarrow>
             ((u, v) \<in> set (combinations2 names) \<or> (v, u) \<in> set (combinations2 names)) \<and>
             adj G (u, v) \<noteq> None))"
proof -
  assume p: "plot_collaboration_network cfg t = Inr G"
  from p show ?thesis
  proof (rule plot_Inr)
    fix t' collab
    assume f: "filter_tables cfg t = Inr t'" and c: "collab_df cfg (snd t') = Inr collab"
      and G: "G = build_graph collab"
    obtain df_proj df_org where t': "t' = (df_proj, df_org)" by (cases t')
    from c have c': "collab_df cfg df_org = Inr collab" by (simp add: t')
    have per: "edge_list collab = edge_list pre @ combinations2 names @ edge_list post \<and>
          distinct names \<and>
          length (combinations2 names) = length names * (length names - 1) div 2 \<and>
          distinct (combinations2 names) \<and>
          (\<forall>u v. (u, v) \<in> set (combinations2 names) \<longrightarrow>
             u \<in> set names \<and> v \<in> set names \<and> u \<noteq> v \<and>
             (v, u) \<notin> set (combinations2 names)) \<and>
          (\<forall>u v. u \<in> set names \<longrightarrow> v \<in> set names \<longrightarrow> u \<noteq> v \<longrightarrow>
             ((u, v) \<in> set (combinations2 names) \<or> (v, u) \<in> set (combinations2 names)) \<and>
             adj G (u, v) \<noteq> None)"
      if split: "collab = pre @ (pid, names) # post" for pre pid names post
    proof -
      have e: "edge_list collab = edge_list pre @ combinations2 names @ edge_list post"
        unfolding split by (simp add: edge_list_append edge_list_Cons)
      have "(pid, names) \<in> set collab" unfolding split by simp
      from collab_df_distinct[OF c' this] have d: "distinct names" by simp
      have pairs: "u \<in> set names \<and> v \<in> set names \<and> u \<noteq> v \<and>
             (v, u) \<notin> set (combinations2 names)"
        if "(u, v) \<in> set (combinations2 names)" for u v
        using that set_combinations2[OF that] combinations2_no_self[OF d that]
          combinations2_asym[OF d that] by simp
      have all: "((u, v) \<in> set (combinations2 names) \<or> (v, u) \<in> set (combinations2 names)) \<and>
             adj G (u, v) \<noteq> None"
        if m: "u \<in> set names" "v \<in> set names" "u \<noteq> v" for u v
      proof -
        from combinations2_complete[OF m]
        consider "(u, v) \<in> set (combinations2 names)" | "(v, u) \<in> set (combinations2 names)"
          by blast
        then show ?thesis
        proof cases
          case 1
          then have "(u, v) \<in> set (edge_list collab)" unfolding e by simp
          from adj_build_graph_key[OF this] 1 show ?thesis by (simp only: G simp_thms)
        next
          case 2
          then have "(v, u) \<in> set (edge_list collab)" unfolding e by simp
          from adj_build_graph_key[OF this] 2 show ?thesis by (simp only: G simp_thms)
        qed
      qed
      from e d length_combinations2[of names] distinct_combinations2[OF d] pairs all
      show ?thesis by blast
    qed
    from f c' G length_edge_list[of collab] per show ?thesis
      unfolding t' by blast
  qed
qed

theorem edge_count_law_witness:
  "plot_collaboration_network default_config
     ([], [org_row 1 ''A'', org_row 1 ''B'', org_row 1 ''C'', org_row 2 ''A'', org_row 2 ''B'']) =
     Inr (build_graph [(1, [''A'', ''B'', ''C'']), (2, [''A'', ''B''])]) \<and>
   edge_list [(1, [''A'', ''B'', ''C'']), (2, [''A'', ''B''])] =
     [(''A'', ''B''), (''A'', ''C''), (''B'', ''C''), (''A'', ''B'')] \<and>
   (\<exists>collab.
      collab_df default_config
        [org_row 1 ''A'', org_row 1 ''B'', org_row 1 ''C'', org_row 2 ''A'', org_row 2 ''B''] =
        Inr collab \<and>
      length (edge_list collab) =
        sum_list (map (\<lambda>g. length (snd g) * (length (snd g) - 1) div 2) collab))"
proof -
  let ?rows = "[org_row 1 ''A'', org_row 1 ''B'', org_row 1 ''C'', org_row 2 ''A'', org_row 2 ''B'']"
  let ?collab = "[(1::int, [''A'', ''B'', ''C'']), (2, [''A'', ''B''])]"
  have f: "filter_tables default_config ([], ?rows) = Inr ([], ?rows)"
    by code_simp
  have c: "collab_df default_config ?rows = Inr ?collab"
    by code_simp
  have p: "plot_collaboration_network default_config ([], ?rows) = Inr (build_graph ?collab)"
    using plot_eval[OF f] c by simp
  have e: "edge_list ?collab = [(''A'', ''B''), (''A'', ''C''), (''B'', ''C''), (''A'', ''B'')]"
    by code_simp
  from edge_count_law[OF p]
  have "\<exists>collab. collab_df default_config ?rows = Inr collab \<and>
      length (edge_list collab) =
        sum_list (map (\<lambda>g. length (snd g) * (length (snd g) - 1) div 2) collab)"
  proof (elim exE conjE)
    fix df_proj df_org collab
    assume f': "filter_tables default_config ([], ?rows) = Inr (df_proj, df_org)"
      and c': "collab_df default_config df_org = Inr collab"
      and l: "length (edge_list collab) =
        sum_list (map (\<lambda>g. length (snd g) * (length (snd g) - 1) div 2) collab)"
    from f f' have "df_org = ?rows" by simp
    with c' l show ?thesis by (intro exI[of _ collab]) simp
  qed
  with p e show ?thesis by (intro conjI)
qed

section \<open>C6: no self-loops\<close>

text \<open>
  C6. Whenever \<open>plot_collaboration_network\<close> builds a graph, the graph has no edge from
  a name to itself, also when the organization table repeats a name within a project.
\<close>

theorem no_self_loops:
  "plot_collaboration_network cfg t = Inr G \<Longrightarrow> adj G (a, a) = None"
proof (rule ccontr)
  assume p: "plot_collaboration_network cfg t = Inr G" and n: "adj G (a, a) \<noteq> None"
  from p show False
  proof (rule plot_Inr)
    fix t' collab
    assume c: "collab_df cfg (snd t') = Inr collab" and G: "G = build_graph collab"
    from n obtain w where "adj (build_graph collab) (a, a) = Some w" unfolding G by blast
    from adj_build_graph[OF this] have "(a, a) \<in> set (edge_list collab)" by blast
    from edge_list_member[OF this] obtain g where
      g: "g \<in> set collab" "(a, a) \<in> set (combinations2 (snd g))" by blast
    from combinations2_no_self[OF collab_df_distinct[OF c g(1)] g(2)] show False by simp
  qed
qed

theorem no_self_loops_witness:
  "plot_collaboration_network default_config
     ([], [org_row 1 ''A'', org_row 1 ''A'', org_row 1 ''B'']) =
     Inr (build_graph [(1, [''A'', ''B''])]) \<and>
   adj (build_graph [(1, [''A'', ''B''])]) (''A'', ''A'') = None \<and>
   adj (build_graph [(1, [''A'', ''B''])]) (''A'', ''B'') = Some 1"
proof -
  have f: "filter_tables default_config ([], [org_row 1 ''A'', org_row 1 ''A'', org_row 1 ''B'']) =
      Inr ([], [org_row 1 ''A'', org_row 1 ''A'', org_row 1 ''B''])"
    by code_simp
  have c: "collab_df default_config [org_row 1 ''A'', org_row 1 ''A'', org_row 1 ''B''] =
      Inr [(1, [''A'', ''B''])]"
    by code_simp
  have p: "plot_collaboration_network default_config
     ([], [org_row 1 ''A'', org_row 1 ''A'', org_row 1 ''B'']) =
     Inr (build_graph [(1, [''A'', ''B''])])"
    using plot_eval[OF f] c by simp
  have w: "adj (build_graph [(1, [''A'', ''B''])]) (''A'', ''B'') = Some 1"
    by code_simp
  from no_self_loops[OF p] p w show ?thesis by simp
qed

section \<open>C7: order of the filters\<close>

text \<open>
  C7. The claim: two filter criteria applied in either order leave identical tables, the
  conjunction of the predicates. On runs that complete this holds
  (\<open>for_each_conjunction\<close>, \<open>filters_commute_on_completion\<close>), but whether a run
  completes depends on the order. With one project of funding scheme \<open>HORIZON-RIA\<close>,
  \<open>project_type = ['RIA', 'zzz']\<close> ends with two empty tables, while
  \<open>project_type = ['zzz', 'RIA']\<close> empties the project table first, and the second
  \<open>df_proj[df_proj['fundingScheme'].apply(...)]\<close> then leaves a frame without columns
  whose \<open>projectID\<close> column cannot be read. In the same way a contribution threshold,
  which runs before the project-type filter, raises \<open>ValueError\<close> on an unparseable
  value in a row that the project-type filter would have removed.
\<close>

theorem project_type_order_decides_raise:
  "filter_tables (default_config\<lparr>project_type := Some [''RIA'', ''zzz'']\<rparr>)
     ([proj_row 1], [org_row 1 ''A'', org_row 1 ''B'']) = Inr ([], []) \<and>
   filter_tables (default_config\<lparr>project_type := Some [''zzz'', ''RIA'']\<rparr>)
     ([proj_row 1], [org_row 1 ''A'', org_row 1 ''B'']) = Inl (KeyError ''projectID'') \<and>
   filter_tables (default_config\<lparr>project_type := Some [''zzz'']\<rparr>)
     ([proj_row 1], [org_row 1 ''A'',
        (org_row 1 ''B'')\<lparr>contribution_col := NonNumeric\<rparr>]) = Inr ([], []) \<and>
   filter_tables (default_config\<lparr>contribution := Some 50, project_type := Some [''zzz'']\<rparr>)
     ([proj_row 1], [org_row 1 ''A'',
        (org_row 1 ''B'')\<lparr>contribution_col := NonNumeric\<rparr>]) = Inl ValueError"
  by code_simp

section \<open>C8: missing discipline and start date\<close>

text \<open>
  C8. The claim: a record whose discipline (or start date) is missing is excluded by a
  disciplines (or year) filter with any value. \<open>astype(str)\<close> turns the missing value
  into the text \<open>nan\<close> before \<open>str.contains(..., na=False)\<close> sees it, so a filter
  value that occurs in \<open>nan\<close> keeps the record, while the record with discipline
  \<open>physics\<close> is dropped.
\<close>

theorem missing_value_matches_nan:
  "filter_tables (default_config\<lparr>disciplines := Some [''an'']\<rparr>)
     ([], [(org_row 1 ''A'')\<lparr>discipline := None\<rparr>, org_row 1 ''B'']) =
     Inr ([], [(org_row 1 ''A'')\<lparr>discipline := None\<rparr>]) \<and>
   filter_tables (default_config\<lparr>year := Some ''nan''\<rparr>)
     ([], [(org_row 1 ''A'')\<lparr>startDate := None\<rparr>, org_row 1 ''B'']) =
     Inr ([], [(org_row 1 ''A'')\<lparr>startDate := None\<rparr>])"
  by code_simp

section \<open>C9: no matching organization record\<close>

text \<open>
  C9. The claim: when the filters match no organization record, the graph is empty and
  nothing is raised. The grouped frame is then empty, the participant check
  \<open>collab_df[collab_df['name'].apply(...)]\<close> leaves a frame without columns, and
  reading its \<open>name\<close> column raises \<open>KeyError\<close>. When records match but no project
  reaches \<open>min_participants\<close>, the graph is empty and nothing is raised.
\<close>

theorem no_matching_record_raises:
  "filter_tables (default_config\<lparr>countries := Some [''XX'']\<rparr>)
     ([proj_row 1], [org_row 1 ''A'', org_row 1 ''B'']) = Inr ([proj_row 1], []) \<and>
   map_sum id nodes
     (plot_collaboration_network (default_config\<lparr>countries := Some [''XX'']\<rparr>)
        ([proj_row 1], [org_row 1 ''A'', org_row 1 ''B''])) = Inl (KeyError ''name'') \<and>
   map_sum id nodes
     (plot_collaboration_network (default_config\<lparr>min_participants := 3\<rparr>)
        ([proj_row 1], [org_row 1 ''A'', org_row 1 ''B''])) = Inr []"
  by code_simp

section \<open>C10: falsy arguments\<close>

text \<open>
  C10. An empty list for \<open>countries\<close>, \<open>disciplines\<close> or \<open>project_type\<close>, an
  empty string for \<open>year\<close> and the number 0 for \<open>contribution\<close> give the same
  result as \<open>None\<close>: the filter is skipped. With \<open>org_types = []\<close> the result does
  not depend on the \<open>activityType\<close> column at all, and the rows kept are a superset
  of those kept under the default five types. With all of them falsy the two tables
  pass the filter part unchanged, whatever their contribution values.
\<close>

theorem falsy_arguments_disable_filters:
  "plot_collaboration_network (cfg\<lparr>countries := Some []\<rparr>) t =
     plot_collaboration_network (cfg\<lparr>countries := None\<rparr>) t \<and>
   plot_collaboration_network (cfg\<lparr>disciplines := Some []\<rparr>) t =
     plot_collaboration_network (cfg\<lparr>disciplines := None\<rparr>) t \<and>
   plot_collaboration_network (cfg\<lparr>year := Some ''''\<rparr>) t =
     plot_collaboration_network (cfg\<lparr>year := None\<rparr>) t \<and>
   plot_collaboration_network (cfg\<lparr>contribution := Some 0\<rparr>) t =
     plot_collaboration_network (cfg\<lparr>contribution := None\<rparr>) t \<and>
   plot_collaboration_network (cfg\<lparr>project_type := Some []\<rparr>) t =
     plot_collaboration_network (cfg\<lparr>project_type := None\<rparr>) t \<and>
   plot_collaboration_network (cfg\<lparr>org_types := Some []\<rparr>)
       (df_proj, map (\<lambda>r. r\<lparr>activityType := f r\<rparr>) df_org) =
     plot_collaboration_network (cfg\<lparr>org_types := Some []\<rparr>) (df_proj, df_org) \<and>
   (filter_tables (cfg\<lparr>org_types := None\<rparr>) t = Inr (ps_default, rs_default) \<longrightarrow>
      filter_tables (cfg\<lparr>org_types := Some []\<rparr>) t = Inr (ps_empty, rs_empty) \<longrightarrow>
      ps_default = ps_empty \<and> set rs_default \<subseteq> set rs_empty) \<and>
   filter_tables
     \<lparr>field_filter = None, org_types = Some [], max_projects = n, min_participants = m,
      countries = Some [], disciplines = Some [], year = Some '''', contribution = Some 0,
      project_type = Some []\<rparr> t = Inr t"
proof (intro conjI impI)
  show "plot_collaboration_network (cfg\<lparr>countries := Some []\<rparr>) t =
     plot_collaboration_network (cfg\<lparr>countries := None\<rparr>) t"
    by (rule plot_cong) (simp_all add: filter_tables_def truthy_list_def)
  show "plot_collaboration_network (cfg\<lparr>disciplines := Some []\<rparr>) t =
     plot_collaboration_network (cfg\<lparr>disciplines := None\<rparr>) t"
    by (rule plot_cong) (simp_all add: filter_tables_def truthy_list_def)
  show "plot_collaboration_network (cfg\<lparr>year := Some ''''\<rparr>) t =
     plot_collaboration_network (cfg\<lparr>year := None\<rparr>) t"
    by (rule plot_cong) (simp_all add: filter_tables_def truthy_list_def)
  show "plot_collaboration_network (cfg\<lparr>contribution := Some 0\<rparr>) t =
     plot_collaboration_network (cfg\<lparr>contribution := None\<rparr>) t"
    by (rule plot_cong) (simp_all add: filter_tables_def truthy_num_def)
  show "plot_collaboration_network (cfg\<lparr>project_type := Some []\<rparr>) t =
     plot_collaboration_network (cfg\<lparr>project_type := None\<rparr>) t"
    by (rule plot_cong) (simp_all add: filter_tables_def truthy_list_def)
  show "plot_collaboration_network (cfg\<lparr>org_types := Some []\<rparr>)
       (df_proj, map (\<lambda>r. r\<lparr>activityType := f r\<rparr>) df_org) =
     plot_collaboration_network (cfg\<lparr>org_types := Some []\<rparr>) (df_proj, df_org)"
    by (rule plot_activityType)
  show "filter_tables
     \<lparr>field_filter = None, org_types = Some [], max_projects = n, min_participants = m,
      countries = Some [], disciplines = Some [], year = Some '''', contribution = Some 0,
      project_type = Some []\<rparr> t = Inr t"
    by (simp add: filter_tables_def truthy_list_def truthy_num_def)
next
  assume a: "filter_tables (cfg\<lparr>org_types := None\<rparr>) t = Inr (ps_default, rs_default)"
    and b: "filter_tables (cfg\<lparr>org_types := Some []\<rparr>) t = Inr (ps_empty, rs_empty)"
  from a have a': "(ps_default, rs_default) = conjunction (criteria (cfg\<lparr>org_types := None\<rparr>)) t"
    by (simp add: filter_tables_criteria for_each_conjunction)
  from b have b': "(ps_empty, rs_empty) = conjunction (criteria (cfg\<lparr>org_types := Some []\<rparr>)) t"
    by (simp add: filter_tables_criteria for_each_conjunction)
  have "fst (conjunction (criteria (cfg\<lparr>org_types := None\<rparr>)) t) =
          fst (conjunction (criteria (cfg\<lparr>org_types := Some []\<rparr>)) t) \<and>
        set (snd (conjunction (criteria (cfg\<lparr>org_types := None\<rparr>)) t)) \<subseteq>
          set (snd (conjunction (criteria (cfg\<lparr>org_types := Some []\<rparr>)) t))"
    by (rule conjunction_mono) (auto simp: criteria_default_org_types)
  then show "ps_default = ps_empty" and "set rs_default \<subseteq> set rs_empty"
    unfolding a'[symmetric] b'[symmetric] by simp_all
qed

theorem falsy_arguments_disable_filters_witness:
  "filter_tables (default_config\<lparr>org_types := None\<rparr>)
     ([], [org_row 1 ''A'', (org_row 1 ''B'')\<lparr>activityType := Some ''OTH''\<rparr>]) =
     Inr ([], [org_row 1 ''A'']) \<and>
   filter_tables (default_config\<lparr>org_types := Some []\<rparr>)
     ([], [org_row 1 ''A'', (org_row 1 ''B'')\<lparr>activityType := Some ''OTH''\<rparr>]) =
     Inr ([], [org_row 1 ''A'', (org_row 1 ''B'')\<lparr>activityType := Some ''OTH''\<rparr>]) \<and>
   set [org_row 1 ''A''] \<subseteq>
     set [org_row 1 ''A'', (org_row 1 ''B'')\<lparr>activityType := Some ''OTH''\<rparr>]"
proof -
  let ?t = "([], [org_row 1 ''A'', (org_row 1 ''B'')\<lparr>activityType := Some ''OTH''\<rparr>]) :: tables"
  have a: "filter_tables (default_config\<lparr>org_types := None\<rparr>) ?t = Inr ([], [org_row 1 ''A''])"
    by code_simp
  have b: "filter_tables (default_config\<lparr>org_types := Some []\<rparr>) ?t =
      Inr ([], [org_row 1 ''A'', (org_row 1 ''B'')\<lparr>activityType := Some ''OTH''\<rparr>])"
    by code_simp
  from falsy_arguments_disable_filters[where cfg = default_config and t = ?t
      and ps_default = "[]" and rs_default = "[org_row 1 ''A'']" and ps_empty = "[]"
      and rs_empty = "[org_row 1 ''A'', (org_row 1 ''B'')\<lparr>activityType := Some ''OTH''\<rparr>]"] a b
  show ?thesis by blast
qed

end
